theory Spec2Isabelle
  imports Complex_Main
begin

section \<open>Python values\<close>

text \<open>
  The program of \<^verbatim>\<open>extract_annotations.py\<close> works on what \<^verbatim>\<open>json.load\<close> returns:
  \<^verbatim>\<open>None\<close>, booleans, integers, floats, strings, lists and dicts with string keys.
  A dict is the list of its items in insertion order (keys distinct, as \<^verbatim>\<open>json.load\<close>
  builds it); a string is a list of characters, one \<^typ>\<open>char\<close> for each character of
  the Python string.  A float is kept as the number it denotes: the program only tests
  floats for truth and compares them as dict keys.
\<close>

datatype pyfloat = Finite rat | NegZero | NaN | PosInf | NegInf

datatype json =
    JNull
  | JBool bool
  | JInt int
  | JFloat pyfloat
  | JStr string
  | JArr "json list"
  | JObj "(string \<times> json) list"

text \<open>
  The exceptions that can leave the code uncaught.  \<^verbatim>\<open>ValueError\<close> also stands for its
  subclass \<^verbatim>\<open>UnicodeDecodeError\<close>, \<^verbatim>\<open>OSError\<close> for its subclasses other than
  \<^verbatim>\<open>FileNotFoundError\<close> (\<^verbatim>\<open>PermissionError\<close>, \<^verbatim>\<open>IsADirectoryError\<close>).
\<close>

datatype exc = TypeError | AttributeError | KeyError | ValueError | OSError | RecursionError

text \<open>Truth value testing (\<^verbatim>\<open>if x\<close>, \<^verbatim>\<open>not x\<close>).\<close>

fun truthy :: "json \<Rightarrow> bool" where
  "truthy JNull = False"
| "truthy (JBool b) = b"
| "truthy (JInt n) = (n \<noteq> 0)"
| "truthy (JFloat f) = (f \<noteq> Finite 0 \<and> f \<noteq> NegZero)"
| "truthy (JStr s) = (s \<noteq> [])"
| "truthy (JArr xs) = (xs \<noteq> [])"
| "truthy (JObj kv) = (kv \<noteq> [])"

text \<open>\<^verbatim>\<open>isinstance(x, list)\<close>.\<close>

fun isinstance_list :: "json \<Rightarrow> bool" where
  "isinstance_list (JArr xs) = True"
| "isinstance_list _ = False"

text \<open>
  \<^verbatim>\<open>x.get(key, default)\<close>: only a dict has the method, any other value raises
  \<^verbatim>\<open>AttributeError\<close>.  \<^verbatim>\<open>x.get(key)\<close> is \<^verbatim>\<open>x.get(key, None)\<close>.
\<close>

fun dict_get :: "json \<Rightarrow> string \<Rightarrow> json \<Rightarrow> exc + json" where
  "dict_get (JObj kv) key dflt = Inr (case map_of kv key of Some v \<Rightarrow> v | None \<Rightarrow> dflt)"
| "dict_get _ key dflt = Inl AttributeError"

text \<open>\<^verbatim>\<open>needle in haystack\<close> on two strings: the substring test.\<close>

fun str_contains :: "string \<Rightarrow> string \<Rightarrow> bool" where
  "str_contains needle [] = (needle = [])"
| "str_contains needle (c # cs) =
     (take (length needle) (c # cs) = needle \<or> str_contains needle cs)"

text \<open>
  \<^verbatim>\<open>key in x\<close> for a string \<^verbatim>\<open>key\<close>: membership among the keys of a dict, among the
  elements of a list (only the same string is equal to a string), the substring test on a
  string; any other value is no container and raises \<^verbatim>\<open>TypeError\<close>.
\<close>

fun py_in :: "string \<Rightarrow> json \<Rightarrow> exc + bool" where
  "py_in key (JObj kv) = Inr (key \<in> fst ` set kv)"
| "py_in key (JArr xs) = Inr (JStr key \<in> set xs)"
| "py_in key (JStr s) = Inr (str_contains key s)"
| "py_in key _ = Inl TypeError"

text \<open>
  \<^verbatim>\<open>x[key]\<close> for a string \<^verbatim>\<open>key\<close>: the value stored in a dict (\<^verbatim>\<open>KeyError\<close> when
  there is none); a list and a string take integer indices only, any other value has no
  items: all of them raise \<^verbatim>\<open>TypeError\<close>.
\<close>

fun py_getitem :: "json \<Rightarrow> string \<Rightarrow> exc + json" where
  "py_getitem (JObj kv) key =
     (case map_of kv key of Some v \<Rightarrow> Inr v | None \<Rightarrow> Inl KeyError)"
| "py_getitem _ key = Inl TypeError"

section \<open>The extractor\<close>

text \<open>The dict that the extractor appends for a citation (lines 58 to 63).\<close>

record annotation_record =
  book_name :: json
  page_number :: json
  quote :: json
  annotation :: json

text \<open>
  Lines 41 to 44: the title of a document.
  \<^verbatim>\<open>
  book_name = doc.get('data', {}).get('doc_title')
  if not book_name:
      book_name = doc.get('data', {}).get('doc_file_name_title', 'Unknown Title')
  \<close>
\<close>

definition resolve_book_name :: "json \<Rightarrow> exc + json" where
  "resolve_book_name doc =
     (case dict_get doc ''data'' (JObj []) of
        Inl e \<Rightarrow> Inl e
      | Inr d \<Rightarrow>
          (case dict_get d ''doc_title'' JNull of
             Inl e \<Rightarrow> Inl e
           | Inr title \<Rightarrow>
               if \<not> truthy title then
                 (case dict_get doc ''data'' (JObj []) of
                    Inl e \<Rightarrow> Inl e
                  | Inr d' \<Rightarrow> dict_get d' ''doc_file_name_title'' (JStr ''Unknown Title''))
               else Inr title))"

text \<open>
  Lines 51 to 63: the loop over the citations of one document, appending to
  \<^verbatim>\<open>extracted_data\<close>.
\<close>

fun citations_loop ::
  "json \<Rightarrow> json list \<Rightarrow> annotation_record list \<Rightarrow> exc + annotation_record list" where
  "citations_loop name [] extracted_data = Inr extracted_data"
| "citations_loop name (citation # rest) extracted_data =
     (case dict_get citation ''note_page'' JNull of
        Inl e \<Rightarrow> Inl e
      | Inr page \<Rightarrow>
          (case dict_get citation ''note_body'' JNull of
             Inl e \<Rightarrow> Inl e
           | Inr body \<Rightarrow>
               (case dict_get citation ''note_extra'' JNull of
                  Inl e \<Rightarrow> Inl e
                | Inr extra \<Rightarrow>
                    citations_loop name rest
                      (if truthy body \<and> truthy extra
                       then extracted_data @
                         [\<lparr>book_name = name, page_number = page,
                           quote = body, annotation = extra\<rparr>]
                       else extracted_data))))"

text \<open>Lines 40 to 63: the loop over \<^verbatim>\<open>data['docs']\<close>.\<close>

fun docs_loop :: "json list \<Rightarrow> annotation_record list \<Rightarrow> exc + annotation_record list" where
  "docs_loop [] extracted_data = Inr extracted_data"
| "docs_loop (doc # rest) extracted_data =
     (case resolve_book_name doc of
        Inl e \<Rightarrow> Inl e
      | Inr name \<Rightarrow>
          (case dict_get doc ''citations'' JNull of
             Inl e \<Rightarrow> Inl e
           | Inr citations \<Rightarrow>
               if \<not> truthy citations \<or> \<not> isinstance_list citations
               then docs_loop rest extracted_data
               else
                 (case citations of
                    JArr cs \<Rightarrow>
                      (case citations_loop name cs extracted_data of
                         Inl e \<Rightarrow> Inl e
                       | Inr extracted_data' \<Rightarrow> docs_loop rest extracted_data')
                  | _ \<Rightarrow> docs_loop rest extracted_data)))"

text \<open>
  What opening and parsing the file gives: one of the two exceptions that the function
  catches, any other exception of \<^verbatim>\<open>open\<close> or \<^verbatim>\<open>json.load\<close> (a file that cannot be read
  or is no UTF-8, a number too long, a nesting too deep), or the parsed value.
\<close>

datatype load_result = FileNotFoundError | JSONDecodeError | LoadRaises exc | Loaded json

text \<open>
  \<^verbatim>\<open>extract_annotations_from_json\<close>: the lines it prints, and either the list it
  returns or the exception that leaves it.
\<close>

definition extract_annotations_from_json ::
  "string \<Rightarrow> load_result \<Rightarrow> string list \<times> (exc + annotation_record list)" where
  "extract_annotations_from_json filepath loaded =
     (case loaded of
        FileNotFoundError \<Rightarrow> ([''Error: File not found at '' @ filepath], Inr [])
      | JSONDecodeError \<Rightarrow> ([''Error: Could not decode JSON from '' @ filepath], Inr [])
      | LoadRaises e \<Rightarrow> ([], Inl e)
      | Loaded data \<Rightarrow>
          (case py_in ''docs'' data of
             Inl e \<Rightarrow> ([], Inl e)
           | Inr found \<Rightarrow>
               if \<not> found then
                 ([''Error: JSON structure is not as expected. Missing 'docs' array.''], Inr [])
               else
                 (case py_getitem data ''docs'' of
                    Inl e \<Rightarrow> ([], Inl e)
                  | Inr docs \<Rightarrow>
                      (case docs of
                         JArr ds \<Rightarrow> ([], docs_loop ds [])
                       | _ \<Rightarrow>
                         ([''Error: JSON structure is not as expected. Missing 'docs' array.''],
                          Inr [])))))"

section \<open>File names\<close>

text \<open>
  The character class of the regular expression on line 70: backslash, slash, star,
  question mark, colon, double quote, less, greater, bar.
\<close>

definition removed_chars :: "char list" where
  "removed_chars =
     [CHR 0x5C, CHR ''/'', CHR ''*'', CHR ''?'', CHR '':'', CHR 0x22,
      CHR ''<'', CHR ''>'', CHR ''|'']"

text \<open>\<^verbatim>\<open>re.sub(r'[...]', "", s)\<close> deletes every character of the class.\<close>

definition re_sub_removed :: "string \<Rightarrow> string" where
  "re_sub_removed s = filter (\<lambda>c. c \<notin> set removed_chars) s"

text \<open>\<^verbatim>\<open>s.replace(" ", "_")\<close>.\<close>

definition replace_spaces :: "string \<Rightarrow> string" where
  "replace_spaces s = map (\<lambda>c. if c = CHR '' '' then CHR ''_'' else c) s"

definition sanitize_filename :: "string \<Rightarrow> string" where
  "sanitize_filename filename = take 200 (replace_spaces (re_sub_removed filename))"

text \<open>\<^verbatim>\<open>os.path.join(a, b)\<close> of \<^verbatim>\<open>posixpath\<close>.\<close>

definition os_path_join :: "string \<Rightarrow> string \<Rightarrow> string" where
  "os_path_join a b =
     (if b \<noteq> [] \<and> hd b = CHR ''/'' then b
      else if a = [] \<or> last a = CHR ''/'' then a @ b
      else a @ ''/'' @ b)"

text \<open>Lines 90 and 91: the path of the PDF file of a book.\<close>

definition pdf_filename :: "string \<Rightarrow> string \<Rightarrow> string" where
  "pdf_filename base_path book_title =
     os_path_join base_path (sanitize_filename book_title @ ''_Annotations.pdf'')"

section \<open>Text of a value\<close>

text \<open>The decimal digits of a natural number, most significant first.\<close>

function str_nat :: "nat \<Rightarrow> string" where
  "str_nat n =
     (if n < 10 then [char_of (48 + n)]
      else str_nat (n div 10) @ [char_of (48 + n mod 10)])"
  by pat_completeness auto
termination
  by (relation "measure (\<lambda>n. n)") auto

definition str_int :: "int \<Rightarrow> string" where
  "str_int i = (if i < 0 then CHR ''-'' # str_nat (nat (- i)) else str_nat (nat i))"

text \<open>
  \<^verbatim>\<open>str(x)\<close>, which is also what an f-string puts for \<^verbatim>\<open>{x}\<close>.  The text of a float, a
  list or a dict is Python's \<^verbatim>\<open>repr\<close> of it, which is not modelled: it is the parameter
  \<open>repr\<close>.
\<close>

fun py_str :: "(json \<Rightarrow> string) \<Rightarrow> json \<Rightarrow> string" where
  "py_str repr JNull = ''None''"
| "py_str repr (JBool b) = (if b then ''True'' else ''False'')"
| "py_str repr (JInt i) = str_int i"
| "py_str repr (JStr s) = s"
| "py_str repr v = repr v"

section \<open>Grouping by book\<close>

text \<open>
  \<^verbatim>\<open>books_data\<close> is a dict whose keys are the \<^verbatim>\<open>book_name\<close> values: the list of its items
  in insertion order.  A list or a dict is not hashable and cannot be a key.  Two keys are
  the same key when they are equal: booleans, integers and floats compare as numbers
  (\<^verbatim>\<open>True == 1 == 1.0\<close>, \<^verbatim>\<open>0.0 == -0.0\<close>), \<^verbatim>\<open>json\<close> returns one and the same object for
  every \<^verbatim>\<open>NaN\<close>, and a string or \<^verbatim>\<open>None\<close> is equal to itself only.
\<close>

fun hashable :: "json \<Rightarrow> bool" where
  "hashable (JArr xs) = False"
| "hashable (JObj kv) = False"
| "hashable _ = True"

fun number_of :: "json \<Rightarrow> pyfloat option" where
  "number_of (JBool b) = Some (Finite (if b then 1 else 0))"
| "number_of (JInt i) = Some (Finite (of_int i))"
| "number_of (JFloat NegZero) = Some (Finite 0)"
| "number_of (JFloat f) = Some f"
| "number_of _ = None"

definition key_eq :: "json \<Rightarrow> json \<Rightarrow> bool" where
  "key_eq a b =
     (case (number_of a, number_of b) of
        (Some x, Some y) \<Rightarrow> x = y
      | (None, None) \<Rightarrow> a = b
      | _ \<Rightarrow> False)"

text \<open>\<^verbatim>\<open>key in d\<close>.\<close>

definition has_key :: "(json \<times> 'v) list \<Rightarrow> json \<Rightarrow> bool" where
  "has_key d key = list_ex (\<lambda>(k, v). key_eq k key) d"

text \<open>\<^verbatim>\<open>d[key].append(x)\<close> for a key that the dict has.\<close>

fun append_at :: "(json \<times> 'v list) list \<Rightarrow> json \<Rightarrow> 'v \<Rightarrow> (json \<times> 'v list) list" where
  "append_at [] key x = []"
| "append_at ((k, vs) # d) key x =
     (if key_eq k key then (k, vs @ [x]) # d else (k, vs) # append_at d key x)"

text \<open>Lines 167 to 176: the loop that fills \<^verbatim>\<open>books_data\<close>.\<close>

fun group_loop ::
  "annotation_record list \<Rightarrow> (json \<times> json list) list \<Rightarrow> exc + (json \<times> json list) list" where
  "group_loop [] books_data = Inr books_data"
| "group_loop (item # rest) books_data =
     (if \<not> hashable (book_name item) then Inl TypeError
      else
        group_loop rest
          (append_at
             (if \<not> has_key books_data (book_name item)
              then books_data @ [(book_name item, [])]
              else books_data)
             (book_name item)
             (JObj [(''page_number'', page_number item),
                    (''quote'', quote item),
                    (''annotation'', annotation item)])))"

section \<open>The reporter\<close>

text \<open>
  The document handed to the PDF library is the list \<^verbatim>\<open>story\<close> of flowables: paragraphs,
  a spacer, a table.  A paragraph carries its text and its style (\<^verbatim>\<open>h1\<close> with
  \<^verbatim>\<open>alignment = 1\<close>, centred, for the title; \<^verbatim>\<open>Normal\<close> elsewhere); a table carries its
  rows, whose cells are the plain strings of the header row or paragraphs.  Column widths
  and the table style are constants of the source and are left out.
\<close>

datatype style = H1_centred | Normal

datatype pdf_paragraph = Paragraph string style

datatype cell = Plain string | InCell pdf_paragraph

datatype flowable = InStory pdf_paragraph | Spacer | Table "cell list list"

text \<open>
  \<^verbatim>\<open>Paragraph(text, style)\<close> parses the markup of its text when it is constructed and raises
  \<^verbatim>\<open>ValueError\<close> on a text that it cannot parse (an unclosed tag, for one).  The parser
  belongs to the PDF library: \<open>markup_ok\<close> says which texts it accepts.
\<close>

definition new_paragraph :: "(string \<Rightarrow> bool) \<Rightarrow> string \<Rightarrow> style \<Rightarrow> exc + pdf_paragraph" where
  "new_paragraph markup_ok text st =
     (if markup_ok text then Inr (Paragraph text st) else Inl ValueError)"

text \<open>
  What the program has done so far: the lines printed, and the PDF files written (path and
  story), both in order.
\<close>

record outputs =
  stdout :: "string list"
  pdfs :: "(string \<times> flowable list) list"

definition print :: "string \<Rightarrow> outputs \<Rightarrow> outputs" where
  "print line out = out\<lparr>stdout := stdout out @ [line]\<rparr>"

text \<open>
  Lines 111 to 121: one table row for each annotation.  The three strings are computed
  first, then the three paragraphs are constructed, page, quote, annotation.
\<close>

fun rows_loop ::
  "(json \<Rightarrow> string) \<Rightarrow> (string \<Rightarrow> bool) \<Rightarrow> json list \<Rightarrow> cell list list \<Rightarrow>
   exc + cell list list" where
  "rows_loop repr markup_ok [] data = Inr data"
| "rows_loop repr markup_ok (ann # rest) data =
     (case dict_get ann ''page_number'' (JStr ''N/A'') of
        Inl e \<Rightarrow> Inl e
      | Inr page \<Rightarrow>
     (case dict_get ann ''quote'' (JStr []) of
        Inl e \<Rightarrow> Inl e
      | Inr q \<Rightarrow>
     (case dict_get ann ''annotation'' (JStr []) of
        Inl e \<Rightarrow> Inl e
      | Inr a \<Rightarrow>
     (case new_paragraph markup_ok (py_str repr page) Normal of
        Inl e \<Rightarrow> Inl e
      | Inr page_p \<Rightarrow>
     (case new_paragraph markup_ok (py_str repr q) Normal of
        Inl e \<Rightarrow> Inl e
      | Inr quote_p \<Rightarrow>
     (case new_paragraph markup_ok (py_str repr a) Normal of
        Inl e \<Rightarrow> Inl e
      | Inr annotation_p \<Rightarrow>
          rows_loop repr markup_ok rest
            (data @ [[InCell page_p, InCell quote_p, InCell annotation_p]])))))))"

text \<open>
  \<^verbatim>\<open>save_book_to_pdf\<close>.  \<^verbatim>\<open>re.sub\<close> raises \<^verbatim>\<open>TypeError\<close> on a title that is no string.
  The paragraphs of the title (line 102) and of the rows (lines 118 to 120) are
  constructed outside the \<^verbatim>\<open>try\<close> block, so their \<^verbatim>\<open>ValueError\<close> leaves the function.
  \<^verbatim>\<open>doc.build(story)\<close>, inside the \<^verbatim>\<open>try\<close> block of lines 144 to 148, belongs to the PDF
  library: \<open>build\<close> says for a path and a story whether the call writes the file (\<open>None\<close>)
  or raises an \<^verbatim>\<open>Exception\<close>, whose text it gives.
\<close>

definition save_book_to_pdf ::
  "(json \<Rightarrow> string) \<Rightarrow> (string \<Rightarrow> bool) \<Rightarrow> (string \<Rightarrow> flowable list \<Rightarrow> string option) \<Rightarrow>
   json \<Rightarrow> json list \<Rightarrow> string \<Rightarrow> outputs \<Rightarrow> exc + outputs" where
  "save_book_to_pdf repr markup_ok build book_title book_annotations base_path out =
     (if book_annotations = [] then
        Inr (print (''No annotations to save for '' @ py_str repr book_title @ ''.'') out)
      else
        (case book_title of
           JStr title \<Rightarrow>
             (let file = pdf_filename base_path title in
              case new_paragraph markup_ok title H1_centred of
                Inl e \<Rightarrow> Inl e
              | Inr title_text \<Rightarrow>
             (let story = [InStory title_text, Spacer] in
              case rows_loop repr markup_ok book_annotations
                     [[Plain ''Page No.'', Plain ''Quote'', Plain ''Annotation'']] of
                Inl e \<Rightarrow> Inl e
              | Inr data \<Rightarrow>
             (case (if length data = 1
                    then (case new_paragraph markup_ok
                                 ''No annotations found for this book.'' Normal of
                            Inl e \<Rightarrow> Inl e
                          | Inr notice \<Rightarrow> Inr (story @ [InStory notice]))
                    else Inr (story @ [Table data])) of
                Inl e \<Rightarrow> Inl e
              | Inr story' \<Rightarrow>
             (case build file story' of
                None \<Rightarrow>
                  Inr (print (''Successfully generated PDF: '' @ file)
                         (out\<lparr>pdfs := pdfs out @ [(file, story')]\<rparr>))
              | Some cause \<Rightarrow>
                  Inr (print (''Error generating PDF for '' @ title @ '': '' @ cause)
                         out)))))
         | _ \<Rightarrow> Inl TypeError))"

text \<open>
  Lines 181 and 182: one call for each item of \<^verbatim>\<open>books_data\<close>.  The result is what was
  printed and written so far and the exception, if one left the loop.
\<close>

fun books_loop ::
  "(json \<Rightarrow> string) \<Rightarrow> (string \<Rightarrow> bool) \<Rightarrow> (string \<Rightarrow> flowable list \<Rightarrow> string option) \<Rightarrow>
   (json \<times> json list) list \<Rightarrow> outputs \<Rightarrow> outputs \<times> exc option" where
  "books_loop repr markup_ok build [] out = (out, None)"
| "books_loop repr markup_ok build ((book_title, annotations_for_book) # rest) out =
     (case save_book_to_pdf repr markup_ok build book_title annotations_for_book ''.'' out of
        Inl e \<Rightarrow> (out, Some e)
      | Inr out' \<Rightarrow> books_loop repr markup_ok build rest out')"

text \<open>Lines 186 to 191: the console block of one record.\<close>

definition console_block :: "(json \<Rightarrow> string) \<Rightarrow> annotation_record \<Rightarrow> string list" where
  "console_block repr item =
     [''  Book: '' @ py_str repr (book_name item),
      ''  Page: '' @ py_str repr (page_number item),
      ''  Quote: '' @ [CHR 0x22] @ py_str repr (quote item) @ [CHR 0x22],
      ''  Annotation: '' @ [CHR 0x22] @ py_str repr (annotation item) @ [CHR 0x22],
      replicate 20 CHR ''-'']"

text \<open>
  How the process ends: with an exit status (\<^verbatim>\<open>sys.exit(0)\<close>, or 0 at the end of the
  script), or with an exception that nothing catches (a traceback and status 1).
\<close>

datatype exit_status = Exit nat | Uncaught exc

text \<open>
  Lines 158 to 191, after the arguments are parsed: \<open>pdf\<close> is the flag \<^verbatim>\<open>--pdf\<close>.
\<close>

definition main ::
  "(json \<Rightarrow> string) \<Rightarrow> (string \<Rightarrow> bool) \<Rightarrow> (string \<Rightarrow> flowable list \<Rightarrow> string option) \<Rightarrow>
   string \<Rightarrow> load_result \<Rightarrow> bool \<Rightarrow> outputs \<times> exit_status" where
  "main repr markup_ok build json_filepath loaded pdf =
     (case extract_annotations_from_json json_filepath loaded of
        (printed, Inl e) \<Rightarrow> (\<lparr>stdout = printed, pdfs = []\<rparr>, Uncaught e)
      | (printed, Inr all_annotations_data) \<Rightarrow>
          if all_annotations_data = [] then
            (\<lparr>stdout = printed @
                [''No annotations found or an error occurred while reading the JSON.''],
              pdfs = []\<rparr>, Exit 0)
          else if pdf then
            (case group_loop all_annotations_data [] of
               Inl e \<Rightarrow> (\<lparr>stdout = printed, pdfs = []\<rparr>, Uncaught e)
             | Inr books_data \<Rightarrow>
                 if books_data = [] then
                   (\<lparr>stdout = printed @ [''No books found to generate PDFs for.''],
                     pdfs = []\<rparr>, Exit 0)
                 else
                   (case books_loop repr markup_ok build books_data
                           \<lparr>stdout = printed, pdfs = []\<rparr> of
                      (out, None) \<Rightarrow> (out, Exit 0)
                    | (out, Some e) \<Rightarrow> (out, Uncaught e)))
          else
            (\<lparr>stdout = printed @
                [CHR 0x0A # ''Extracted Annotations (Console Output):''] @
                concat (map (console_block repr) all_annotations_data),
              pdfs = []\<rparr>, Exit 0))"

section \<open>The file name in the words of the specification\<close>

text \<open>
  The specification derives the file name in four steps: strip the characters that are
  illegal in file names, replace spaces with underscores, truncate to 200 characters,
  append the suffix.  These definitions follow its words and are compared with
  \<open>sanitize_filename\<close> and \<open>pdf_filename\<close> below.
\<close>

fun strip_illegal :: "string \<Rightarrow> string" where
  "strip_illegal [] = []"
| "strip_illegal (c # cs) =
     (if c = CHR 0x5C \<or> c = CHR ''/'' \<or> c = CHR ''*'' \<or> c = CHR ''?'' \<or> c = CHR '':'' \<or>
         c = CHR 0x22 \<or> c = CHR ''<'' \<or> c = CHR ''>'' \<or> c = CHR ''|''
      then strip_illegal cs else c # strip_illegal cs)"

fun spaces_to_underscores :: "string \<Rightarrow> string" where
  "spaces_to_underscores [] = []"
| "spaces_to_underscores (c # cs) =
     (if c = CHR '' '' then CHR ''_'' else c) # spaces_to_underscores cs"

definition spec_file_name :: "string \<Rightarrow> string" where
  "spec_file_name title =
     take 200 (spaces_to_underscores (strip_illegal title)) @ ''_Annotations.pdf''"


section \<open>Notions used to state the properties\<close>

text \<open>An object of the export (a Python dict), and a string.\<close>

fun is_object :: "json \<Rightarrow> bool" where
  "is_object (JObj kv) = True"
| "is_object _ = False"

fun is_str :: "json \<Rightarrow> bool" where
  "is_str (JStr s) = True"
| "is_str _ = False"

fun the_str :: "json \<Rightarrow> string" where
  "the_str (JStr s) = s"
| "the_str _ = []"

text \<open>The value of a field of an object, \<^verbatim>\<open>None\<close> when the object has no such field.\<close>

fun field :: "json \<Rightarrow> string \<Rightarrow> json" where
  "field (JObj kv) key = (case map_of kv key of Some v \<Rightarrow> v | None \<Rightarrow> JNull)"
| "field _ key = JNull"

fun has_field :: "json \<Rightarrow> string \<Rightarrow> bool" where
  "has_field (JObj kv) key = (map_of kv key \<noteq> None)"
| "has_field _ key = False"

text \<open>
  A citation with both a quote (\<^verbatim>\<open>note_body\<close>) and an annotation (\<^verbatim>\<open>note_extra\<close>) that
  are present and not empty, and the record expected for it.
\<close>

definition complete_citation :: "json \<Rightarrow> bool" where
  "complete_citation c = (truthy (field c ''note_body'') \<and> truthy (field c ''note_extra''))"

definition record_of :: "json \<Rightarrow> json \<Rightarrow> annotation_record" where
  "record_of name c =
     \<lparr>book_name = name, page_number = field c ''note_page'',
      quote = field c ''note_body'', annotation = field c ''note_extra''\<rparr>"

text \<open>The elements of a list in the order of their first occurrences.\<close>

fun first_seen :: "'a list \<Rightarrow> 'a list" where
  "first_seen [] = []"
| "first_seen (x # xs) = x # removeAll x (first_seen xs)"

text \<open>What a group keeps of a record: the record without its book name.\<close>

definition row_of :: "annotation_record \<Rightarrow> json" where
  "row_of item =
     JObj [(''page_number'', page_number item),
           (''quote'', quote item),
           (''annotation'', annotation item)]"

text \<open>
  The three texts of the table row of an annotation, the row itself, and the document of a
  book with at least one annotation: the centred title, a spacer, and the table of the
  header row and one row for each annotation.
\<close>

definition cell_texts :: "(json \<Rightarrow> string) \<Rightarrow> json \<Rightarrow> string list" where
  "cell_texts repr ann =
     (case ann of
        JObj kv \<Rightarrow>
          [py_str repr (case map_of kv ''page_number'' of Some v \<Rightarrow> v | None \<Rightarrow> JStr ''N/A''),
           py_str repr (case map_of kv ''quote'' of Some v \<Rightarrow> v | None \<Rightarrow> JStr []),
           py_str repr (case map_of kv ''annotation'' of Some v \<Rightarrow> v | None \<Rightarrow> JStr [])]
      | _ \<Rightarrow> [])"

definition cells_of :: "(json \<Rightarrow> string) \<Rightarrow> json \<Rightarrow> cell list" where
  "cells_of repr ann = map (\<lambda>text. InCell (Paragraph text Normal)) (cell_texts repr ann)"

definition book_story :: "(json \<Rightarrow> string) \<Rightarrow> string \<Rightarrow> json list \<Rightarrow> flowable list" where
  "book_story repr title anns =
     [InStory (Paragraph title H1_centred), Spacer,
      Table ([Plain ''Page No.'', Plain ''Quote'', Plain ''Annotation''] # map (cells_of repr) anns)]"

text \<open>
  The line expected on the console for one book of the grouped map, and whether its file
  is written: the library either writes the file or raises, and the failure is reported
  with the title and the cause.
\<close>

definition book_written ::
  "(json \<Rightarrow> string) \<Rightarrow> (string \<Rightarrow> flowable list \<Rightarrow> string option) \<Rightarrow> json \<times> json list \<Rightarrow> bool" where
  "book_written repr build g =
     (build (pdf_filename ''.'' (the_str (fst g))) (book_story repr (the_str (fst g)) (snd g)) = None)"

definition book_report ::
  "(json \<Rightarrow> string) \<Rightarrow> (string \<Rightarrow> flowable list \<Rightarrow> string option) \<Rightarrow> json \<times> json list \<Rightarrow> string" where
  "book_report repr build g =
     (case build (pdf_filename ''.'' (the_str (fst g))) (book_story repr (the_str (fst g)) (snd g)) of
        None \<Rightarrow> ''Successfully generated PDF: '' @ pdf_filename ''.'' (the_str (fst g))
      | Some cause \<Rightarrow> ''Error generating PDF for '' @ the_str (fst g) @ '': '' @ cause)"

definition book_file :: "(json \<Rightarrow> string) \<Rightarrow> json \<times> json list \<Rightarrow> string \<times> flowable list" where
  "book_file repr g =
     (pdf_filename ''.'' (the_str (fst g)), book_story repr (the_str (fst g)) (snd g))"

text \<open>
  A group as the grouping makes it: a string title with at least one row, all dicts.  A
  group is plain text when the markup parser accepts its title and the texts of its rows.
\<close>

definition proper_group :: "json \<times> json list \<Rightarrow> bool" where
  "proper_group g = (is_str (fst g) \<and> snd g \<noteq> [] \<and> list_all is_object (snd g))"

definition plain_text_group ::
  "(json \<Rightarrow> string) \<Rightarrow> (string \<Rightarrow> bool) \<Rightarrow> json \<times> json list \<Rightarrow> bool" where
  "plain_text_group repr markup_ok g =
     (markup_ok (the_str (fst g)) \<and>
      list_all (\<lambda>ann. list_all markup_ok (cell_texts repr ann)) (snd g))"

text \<open>
  Two exports used below.  The first has two books, the first of them with the title
  \<^verbatim>\<open><b>x\<close>.  The second has one book with three citations: one without a page, one with
  the page \<^verbatim>\<open>"xii"\<close>, one with the page \<^verbatim>\<open>5\<close>.
\<close>

definition export_markup_title :: json where
  "export_markup_title =
     JObj [(''docs'',
       JArr [JObj [(''data'', JObj [(''doc_title'', JStr ''<b>x'')]),
                   (''citations'', JArr [JObj [(''note_page'', JInt 1),
                      (''note_body'', JStr ''q1''), (''note_extra'', JStr ''a1'')]])],
             JObj [(''data'', JObj [(''doc_title'', JStr ''B'')]),
                   (''citations'', JArr [JObj [(''note_page'', JInt 2),
                      (''note_body'', JStr ''q2''), (''note_extra'', JStr ''a2'')]])]])]"

definition export_pages :: json where
  "export_pages =
     JObj [(''docs'',
       JArr [JObj [(''data'', JObj [(''doc_title'', JStr ''T'')]),
                   (''citations'',
                    JArr [JObj [(''note_body'', JStr ''Q''), (''note_extra'', JStr ''A'')],
                          JObj [(''note_page'', JStr ''xii''), (''note_body'', JStr ''Q''),
                                (''note_extra'', JStr ''A'')],
                          JObj [(''note_page'', JInt 5), (''note_body'', JStr ''Q''),
                                (''note_extra'', JStr ''A'')]])]])]"

text \<open>
  \<^verbatim>\<open>doc.get('data', {})\<close> for a document that is an object, and the book name in closed
  form: the title when it is not empty, else the file name title when the field is there,
  else the fixed default.
\<close>

definition data_of :: "json \<Rightarrow> json" where
  "data_of doc = (if has_field doc ''data'' then field doc ''data'' else JObj [])"

definition resolved_name :: "json \<Rightarrow> json" where
  "resolved_name doc =
     (if truthy (field (data_of doc) ''doc_title'') then field (data_of doc) ''doc_title''
      else if has_field (data_of doc) ''doc_file_name_title''
        then field (data_of doc) ''doc_file_name_title''
      else JStr ''Unknown Title'')"

text \<open>One pass of the grouping loop (lines 168 to 176).\<close>

definition group_step ::
  "(json \<times> json list) list \<Rightarrow> annotation_record \<Rightarrow> (json \<times> json list) list" where
  "group_step books_data item =
     append_at
       (if \<not> has_key books_data (book_name item)
        then books_data @ [(book_name item, [])]
        else books_data)
       (book_name item) (row_of item)"

text \<open>
  The grouped map expected for a sequence of records: the book names in first-seen order,
  each with the rows of its records in their order.
\<close>

definition grouped :: "annotation_record list \<Rightarrow> (json \<times> json list) list" where
  "grouped rs =
     map (\<lambda>k. (k, map row_of (filter (\<lambda>r. book_name r = k) rs)))
       (first_seen (map book_name rs))"

section \<open>Properties of the file name\<close>

lemma re_sub_removed_strip: "re_sub_removed s = strip_illegal s"
  by (induction s) (auto simp: re_sub_removed_def removed_chars_def)

lemma replace_spaces_underscores: "replace_spaces s = spaces_to_underscores s"
  by (induction s) (auto simp: replace_spaces_def)

lemma length_sanitize_filename: "length (sanitize_filename s) \<le> 200"
  by (simp add: sanitize_filename_def)

lemma set_sanitize_filename:
  assumes "c \<in> set (sanitize_filename s)"
  shows "c \<notin> set removed_chars \<and> c \<noteq> CHR '' ''"
proof -
  from assms have "c \<in> set (replace_spaces (re_sub_removed s))"
    unfolding sanitize_filename_def by (rule in_set_takeD)
  then obtain d where d: "d \<in> set s" "d \<notin> set removed_chars"
      and c: "c = (if d = CHR '' '' then CHR ''_'' else d)"
    unfolding replace_spaces_def re_sub_removed_def by auto
  show ?thesis
  proof (cases "d = CHR '' ''")
    case True
    with c show ?thesis by (simp add: removed_chars_def)
  next
    case False
    with c d show ?thesis by simp
  qed
qed

lemma sanitize_filename_fixed:
  assumes "length s \<le> 200"
    and "\<And>c. c \<in> set s \<Longrightarrow> c \<notin> set removed_chars \<and> c \<noteq> CHR '' ''"
  shows "sanitize_filename s = s"
proof -
  have "re_sub_removed s = s"
    unfolding re_sub_removed_def using assms(2) by (simp add: filter_id_conv)
  moreover have "replace_spaces s = s"
    unfolding replace_spaces_def using assms(2) by (simp add: map_idI)
  ultimately show ?thesis
    using assms(1) by (simp add: sanitize_filename_def)
qed


text \<open>
  With the base path \<^verbatim>\<open>"."\<close> of the calls in the script, \<^verbatim>\<open>os.path.join\<close> puts \<^verbatim>\<open>./\<close> in
  front of the file name: the name cannot start with a slash, since slashes are removed.
\<close>

lemma pdf_filename_dot:
  "pdf_filename ''.'' t = ''./'' @ sanitize_filename t @ ''_Annotations.pdf''"
proof -
  have "hd (sanitize_filename t @ ''_Annotations.pdf'') \<noteq> CHR ''/''"
  proof (cases "sanitize_filename t")
    case Nil
    then show ?thesis by simp
  next
    case (Cons c cs)
    then have "c \<in> set (sanitize_filename t)" by simp
    then have "c \<notin> set removed_chars" using set_sanitize_filename by blast
    then show ?thesis using Cons by (simp add: removed_chars_def)
  qed
  then show ?thesis
    by (simp add: pdf_filename_def os_path_join_def)
qed

lemma sanitize_filename_example: "sanitize_filename ''My/Book Title'' = ''MyBook_Title''"
  by (simp add: sanitize_filename_def re_sub_removed_def replace_spaces_def removed_chars_def)

text \<open>
  C6: for every book title the file name is the title with the characters
  \<^verbatim>\<open>\ / * ? : " < > |\<close> removed and every space replaced by an underscore, truncated to at
  most 200 characters, followed by \<^verbatim>\<open>_Annotations.pdf\<close>; the script writes it in the
  current directory.  The title \<^verbatim>\<open>My/Book Title\<close> gives \<^verbatim>\<open>MyBook_Title_Annotations.pdf\<close>.
\<close>

theorem pdf_file_name_as_specified:
  "sanitize_filename title = take 200 (spaces_to_underscores (strip_illegal title)) \<and>
   length (sanitize_filename title) \<le> 200 \<and>
   pdf_filename ''.'' title = ''./'' @ spec_file_name title \<and>
   pdf_filename ''.'' ''My/Book Title'' = ''./MyBook_Title_Annotations.pdf''"
proof -
  have 1: "sanitize_filename title = take 200 (spaces_to_underscores (strip_illegal title))"
    by (simp add: sanitize_filename_def re_sub_removed_strip replace_spaces_underscores)
  have 2: "length (sanitize_filename title) \<le> 200"
    by (rule length_sanitize_filename)
  have 3: "pdf_filename ''.'' title = ''./'' @ spec_file_name title"
    by (simp add: pdf_filename_dot spec_file_name_def 1)
  have 4: "pdf_filename ''.'' ''My/Book Title'' = ''./MyBook_Title_Annotations.pdf''"
    by (simp add: pdf_filename_dot sanitize_filename_example)
  from 1 2 3 4 show ?thesis by blast
qed

text \<open>
  C10: \<open>sanitize_filename\<close> is idempotent.  Its result has none of the removed characters
  and no space and is at most 200 characters long, so a second application changes
  nothing.
\<close>

theorem sanitize_filename_idempotent:
  "sanitize_filename (sanitize_filename s) = sanitize_filename s \<and>
   list_all (\<lambda>c. c \<notin> set removed_chars \<and> c \<noteq> CHR '' '') (sanitize_filename s) \<and>
   length (sanitize_filename s) \<le> 200"
proof -
  have 1: "sanitize_filename (sanitize_filename s) = sanitize_filename s"
    by (rule sanitize_filename_fixed) (simp_all add: length_sanitize_filename set_sanitize_filename)
  have 2: "list_all (\<lambda>c. c \<notin> set removed_chars \<and> c \<noteq> CHR '' '') (sanitize_filename s)"
    unfolding list_all_iff using set_sanitize_filename by blast
  have 3: "length (sanitize_filename s) \<le> 200"
    by (rule length_sanitize_filename)
  from 1 2 3 show ?thesis by blast
qed




section \<open>Properties of the extractor\<close>

lemma dict_get_field: "is_object c \<Longrightarrow> dict_get c key JNull = Inr (field c key)"
  by (cases c) simp_all

lemma dict_get_data: "is_object doc \<Longrightarrow> dict_get doc ''data'' (JObj []) = Inr (data_of doc)"
  by (cases doc) (auto simp: data_of_def)

text \<open>
  The book name of a document that is an object whose \<^verbatim>\<open>data\<close>, when present, is an
  object: the title when it is not empty, else the file name title when the field is
  present (whatever its value), else \<^verbatim>\<open>Unknown Title\<close>.
\<close>

lemma resolve_book_name_object:
  assumes "is_object doc" and "is_object (data_of doc)"
  shows "resolve_book_name doc = Inr (resolved_name doc)"
proof -
  obtain kv where d: "data_of doc = JObj kv"
    using assms(2) by (cases "data_of doc") simp_all
  show ?thesis
    unfolding resolve_book_name_def resolved_name_def dict_get_data [OF assms(1)] d
    by (auto split: option.splits)
qed

lemma citations_loop_objects:
  "list_all is_object cs \<Longrightarrow>
   citations_loop name cs acc = Inr (acc @ map (record_of name) (filter complete_citation cs))"
proof (induction cs arbitrary: acc)
  case Nil
  then show ?case by simp
next
  case (Cons c cs)
  then have c: "is_object c" and cs: "list_all is_object cs" by simp_all
  show ?case
    using Cons.IH [OF cs] c
    by (simp add: dict_get_field complete_citation_def record_of_def)
qed

lemma docs_loop_step:
  assumes "resolve_book_name doc = Inr name"
    and "dict_get doc ''citations'' JNull = Inr (JArr cs)"
    and "list_all is_object cs"
  shows "docs_loop (doc # rest) acc =
         docs_loop rest (acc @ map (record_of name) (filter complete_citation cs))"
proof (cases "cs = []")
  case True
  with assms show ?thesis by simp
next
  case False
  with assms show ?thesis by (simp add: citations_loop_objects)
qed

text \<open>
  C1 at the input where it fails: a document whose \<^verbatim>\<open>doc_title\<close> and
  \<^verbatim>\<open>doc_file_name_title\<close> are both present and empty gets the empty string as its book
  name, not \<^verbatim>\<open>Unknown Title\<close>, and its records carry that name.
\<close>

theorem empty_titles_give_empty_book_name:
  "resolve_book_name
     (JObj [(''data'', JObj [(''doc_title'', JStr []), (''doc_file_name_title'', JStr [])])]) =
     Inr (JStr []) \<and>
   docs_loop
     [JObj [(''data'', JObj [(''doc_title'', JStr []), (''doc_file_name_title'', JStr [])]),
            (''citations'', JArr [JObj [(''note_body'', JStr ''Q''), (''note_extra'', JStr ''A'')]])]]
     [] =
     Inr [\<lparr>book_name = JStr [], page_number = JNull, quote = JStr ''Q'',
           annotation = JStr ''A''\<rparr>]"
  by (simp add: resolve_book_name_def)

text \<open>
  The input errors that the program does handle: a missing file, a file that is no JSON,
  and a top-level object without a list under \<^verbatim>\<open>docs\<close>.  Each prints a message, gives
  the empty list, and the process reports that nothing was found and exits with status 0.
\<close>

lemma handled_input_errors:
  assumes "loaded = FileNotFoundError \<or> loaded = JSONDecodeError \<or>
           (\<exists>kv. loaded = Loaded (JObj kv) \<and> \<not> isinstance_list (field (JObj kv) ''docs''))"
  shows "\<exists>msg. extract_annotations_from_json path loaded = ([msg], Inr []) \<and>
           main repr markup_ok build path loaded pdf =
             (\<lparr>stdout = [msg, ''No annotations found or an error occurred while reading the JSON.''],
               pdfs = []\<rparr>, Exit 0)"
proof -
  consider "loaded = FileNotFoundError" | "loaded = JSONDecodeError"
    | kv where "loaded = Loaded (JObj kv)" "\<not> isinstance_list (field (JObj kv) ''docs'')"
    using assms by blast
  then show ?thesis
  proof cases
    case 1
    then show ?thesis by (simp add: main_def extract_annotations_from_json_def)
  next
    case 2
    then show ?thesis by (simp add: main_def extract_annotations_from_json_def)
  next
    case 3
    show ?thesis
    proof (cases "map_of kv ''docs''")
      case None
      then have "''docs'' \<notin> fst ` set kv" by (simp add: map_of_eq_None_iff)
      with 3 show ?thesis by (simp add: main_def extract_annotations_from_json_def)
    next
      case (Some v)
      then have "''docs'' \<in> fst ` set kv"
        by (metis map_of_eq_None_iff option.distinct(1))
      with 3 Some show ?thesis
        by (cases v) (simp_all add: main_def extract_annotations_from_json_def)
    qed
  qed
qed

text \<open>
  C3 at an input where it fails: the file holds the JSON text \<^verbatim>\<open>5\<close>.  The test
  \<^verbatim>\<open>'docs' not in data\<close> raises \<^verbatim>\<open>TypeError\<close> on an integer, nothing catches it, no
  message is printed, and the process ends with the exception instead of status 0.
\<close>

theorem top_level_number_raises:
  "extract_annotations_from_json path (Loaded (JInt 5)) = ([], Inl TypeError) \<and>
   main repr markup_ok build path (Loaded (JInt 5)) pdf = (\<lparr>stdout = [], pdfs = []\<rparr>, Uncaught TypeError)"
  by (simp add: main_def extract_annotations_from_json_def)

text \<open>
  C4: a document (an object whose \<^verbatim>\<open>data\<close>, when present, is an object) whose
  \<^verbatim>\<open>citations\<close> list holds objects gives one record for each citation whose quote and
  annotation are both present and not empty, in the order of the citations; every record
  has a quote and an annotation that are not empty.  The records are appended to those of
  the documents before it.
\<close>

theorem complete_citations_give_records:
  assumes "is_object doc" and "is_object (data_of doc)"
    and "field doc ''citations'' = JArr cs" and "list_all is_object cs"
  shows "docs_loop (doc # rest) acc =
           docs_loop rest
             (acc @ map (record_of (resolved_name doc)) (filter complete_citation cs)) \<and>
         docs_loop [doc] [] =
           Inr (map (record_of (resolved_name doc)) (filter complete_citation cs)) \<and>
         length (map (record_of (resolved_name doc)) (filter complete_citation cs)) =
           length (filter complete_citation cs) \<and>
         list_all (\<lambda>r. truthy (quote r) \<and> truthy (annotation r))
           (map (record_of (resolved_name doc)) (filter complete_citation cs))"
proof -
  have name: "resolve_book_name doc = Inr (resolved_name doc)"
    using assms(1,2) by (rule resolve_book_name_object)
  have cits: "dict_get doc ''citations'' JNull = Inr (JArr cs)"
    using assms(1,3) by (simp add: dict_get_field)
  have step: "docs_loop (doc # rest') acc' =
      docs_loop rest' (acc' @ map (record_of (resolved_name doc)) (filter complete_citation cs))"
    for rest' acc'
    using name cits assms(4) by (rule docs_loop_step)
  have one: "docs_loop [doc] [] =
      Inr (map (record_of (resolved_name doc)) (filter complete_citation cs))"
    unfolding step by simp
  have full: "list_all (\<lambda>r. truthy (quote r) \<and> truthy (annotation r))
      (map (record_of (resolved_name doc)) (filter complete_citation cs))"
    by (simp add: list_all_iff complete_citation_def record_of_def)
  from step one full show ?thesis by simp
qed

theorem complete_citations_witness:
  "docs_loop
     [JObj [(''data'', JObj [(''doc_title'', JStr ''T'')]),
            (''citations'',
             JArr [JObj [(''note_page'', JInt 5), (''note_body'', JStr ''Q1''),
                         (''note_extra'', JStr ''A1'')],
                   JObj [(''note_page'', JInt 6), (''note_body'', JStr ''Q2'')],
                   JObj [(''note_body'', JStr ''Q3''), (''note_extra'', JStr ''A3'')]])]]
     [] =
   Inr [\<lparr>book_name = JStr ''T'', page_number = JInt 5, quote = JStr ''Q1'',
         annotation = JStr ''A1''\<rparr>,
        \<lparr>book_name = JStr ''T'', page_number = JNull, quote = JStr ''Q3'',
         annotation = JStr ''A3''\<rparr>]"
proof -
  let ?c1 = "JObj [(''note_page'', JInt 5), (''note_body'', JStr ''Q1''),
                   (''note_extra'', JStr ''A1'')]"
  let ?c2 = "JObj [(''note_page'', JInt 6), (''note_body'', JStr ''Q2'')]"
  let ?c3 = "JObj [(''note_body'', JStr ''Q3''), (''note_extra'', JStr ''A3'')]"
  let ?doc = "JObj [(''data'', JObj [(''doc_title'', JStr ''T'')]),
                    (''citations'', JArr [?c1, ?c2, ?c3])]"
  have 1: "is_object ?doc" by simp
  have 2: "is_object (data_of ?doc)" by (simp add: data_of_def)
  have 3: "field ?doc ''citations'' = JArr [?c1, ?c2, ?c3]" by simp
  have 4: "list_all is_object [?c1, ?c2, ?c3]" by simp
  from complete_citations_give_records [OF 1 2 3 4, of "[]" "[]"]
  show ?thesis
    by (simp add: complete_citation_def record_of_def resolved_name_def data_of_def)
qed

section \<open>Properties of the grouping\<close>

text \<open>On a string key, key equality is equality.\<close>

lemma key_eq_str: "is_str k \<Longrightarrow> key_eq k' k = (k' = k)"
proof (cases k)
  case (JStr s)
  show ?thesis
  proof (cases k')
    case (JFloat f)
    then show ?thesis using JStr by (cases f) (simp_all add: key_eq_def)
  qed (simp_all add: JStr key_eq_def)
qed simp_all

lemma has_key_str: "is_str k \<Longrightarrow> has_key g k = (k \<in> fst ` set g)"
  by (induction g) (auto simp: has_key_def key_eq_str)

lemma map_fst_append_at: "map fst (append_at g k x) = map fst g"
  by (induction g k x rule: append_at.induct) simp_all

lemma map_of_append_at:
  "is_str k \<Longrightarrow>
   map_of (append_at g k x) k' =
     (if k' = k then map_option (\<lambda>vs. vs @ [x]) (map_of g k) else map_of g k')"
  by (induction g k x rule: append_at.induct) (auto simp: key_eq_str)

lemma keys_group_step:
  "is_str (book_name item) \<Longrightarrow>
   map fst (group_step g item) =
     (if book_name item \<in> fst ` set g then map fst g else map fst g @ [book_name item])"
  by (simp add: group_step_def map_fst_append_at has_key_str)

lemma map_of_group_step:
  assumes "is_str (book_name item)"
  shows "map_of (group_step g item) k =
     (if k = book_name item
      then Some ((case map_of g k of Some vs \<Rightarrow> vs | None \<Rightarrow> []) @ [row_of item])
      else map_of g k)"
proof (cases "book_name item \<in> fst ` set g")
  case True
  then obtain vs where "map_of g (book_name item) = Some vs"
    by (metis domD dom_map_of_conv_image_fst)
  with True assms show ?thesis
    by (simp add: group_step_def map_of_append_at has_key_str)
next
  case False
  then have "map_of g (book_name item) = None"
    by (simp add: map_of_eq_None_iff)
  with False assms show ?thesis
    by (auto simp: group_step_def map_of_append_at has_key_str map_add_def
        split: option.splits)
qed

lemma group_loop_step:
  "is_str (book_name item) \<Longrightarrow> group_loop (item # rest) g = group_loop rest (group_step g item)"
  by (cases "book_name item") (simp_all add: group_step_def row_of_def)

lemma first_seen_set: "set (first_seen xs) = set xs"
  by (induction xs) auto

lemma first_seen_distinct: "distinct (first_seen xs)"
  by (induction xs) (auto simp: distinct_removeAll)

lemma filter_removeAll_absorb: "\<not> P k \<Longrightarrow> filter P (removeAll k xs) = filter P xs"
  by (induction xs) auto

text \<open>
  The loop started on any map with string keys: the new keys follow the old ones in
  first-seen order, and every value is extended by the rows of its book, in order.
\<close>

lemma group_loop_strings:
  assumes "list_all (\<lambda>r. is_str (book_name r)) rs"
  shows "\<exists>g'. group_loop rs g = Inr g' \<and>
           map fst g' = map fst g @ filter (\<lambda>k. k \<notin> fst ` set g) (first_seen (map book_name rs)) \<and>
           (\<forall>k. map_of g' k =
              (if k \<in> fst ` set g \<or> k \<in> book_name ` set rs
               then Some ((case map_of g k of Some vs \<Rightarrow> vs | None \<Rightarrow> []) @
                          map row_of (filter (\<lambda>r. book_name r = k) rs))
               else None))"
  using assms
proof (induction rs arbitrary: g)
  case Nil
  show ?case
    by (auto simp: map_of_eq_None_iff dest: weak_map_of_SomeI split: option.splits)
next
  case (Cons item rest)
  then have str: "is_str (book_name item)" and rest: "list_all (\<lambda>r. is_str (book_name r)) rest"
    by simp_all
  let ?g1 = "group_step g item"
  from Cons.IH [OF rest, of ?g1] obtain g' where
    run: "group_loop rest ?g1 = Inr g'" and
    keys: "map fst g' = map fst ?g1 @
             filter (\<lambda>k. k \<notin> fst ` set ?g1) (first_seen (map book_name rest))" and
    vals: "\<And>k. map_of g' k =
              (if k \<in> fst ` set ?g1 \<or> k \<in> book_name ` set rest
               then Some ((case map_of ?g1 k of Some vs \<Rightarrow> vs | None \<Rightarrow> []) @
                          map row_of (filter (\<lambda>r. book_name r = k) rest))
               else None)"
    by blast
  have "set (map fst ?g1) = insert (book_name item) (set (map fst g))"
    unfolding keys_group_step [OF str] by auto
  then have set1: "fst ` set ?g1 = insert (book_name item) (fst ` set g)"
    by simp
  have "group_loop (item # rest) g = Inr g'"
    using run by (simp only: group_loop_step [OF str])
  moreover have "map fst g' = map fst g @
      filter (\<lambda>k. k \<notin> fst ` set g) (first_seen (map book_name (item # rest)))"
  proof (cases "book_name item \<in> fst ` set g")
    case True
    then have "fst ` set ?g1 = fst ` set g" using set1 by auto
    with True show ?thesis
      using keys keys_group_step [OF str, of g] by (simp add: filter_removeAll_absorb)
  next
    case False
    have "filter (\<lambda>k. k \<notin> fst ` set ?g1) (first_seen (map book_name rest)) =
          filter (\<lambda>k. k \<notin> fst ` set g) (removeAll (book_name item) (first_seen (map book_name rest)))"
      unfolding set1 removeAll_filter_not_eq by (auto intro: filter_cong)
    with False show ?thesis
      using keys keys_group_step [OF str, of g] by simp
  qed
  moreover have "\<forall>k. map_of g' k =
              (if k \<in> fst ` set g \<or> k \<in> book_name ` set (item # rest)
               then Some ((case map_of g k of Some vs \<Rightarrow> vs | None \<Rightarrow> []) @
                          map row_of (filter (\<lambda>r. book_name r = k) (item # rest)))
               else None)"
  proof
    fix k
    show "map_of g' k =
              (if k \<in> fst ` set g \<or> k \<in> book_name ` set (item # rest)
               then Some ((case map_of g k of Some vs \<Rightarrow> vs | None \<Rightarrow> []) @
                          map row_of (filter (\<lambda>r. book_name r = k) (item # rest)))
               else None)"
      unfolding vals [of k] set1 map_of_group_step [OF str]
      by auto
  qed
  ultimately show ?case by blast
qed

lemma alist_of_keys:
  "distinct (map fst g) \<Longrightarrow> map (\<lambda>k. (k, the (map_of g k))) (map fst g) = g"
proof (induction g)
  case Nil
  then show ?case by simp
next
  case (Cons p g)
  then have "\<forall>k\<in>set (map fst g). k \<noteq> fst p" by force
  then have "map (\<lambda>k. (k, the (map_of (p # g) k))) (map fst g) =
             map (\<lambda>k. (k, the (map_of g k))) (map fst g)"
    by (intro map_cong) (auto simp del: set_map)
  with Cons show ?case by (cases p) simp
qed

lemma group_loop_grouped:
  assumes "list_all (\<lambda>r. is_str (book_name r)) rs"
  shows "group_loop rs [] = Inr (grouped rs)"
proof -
  from group_loop_strings [OF assms, of "[]"] obtain g where
    run: "group_loop rs [] = Inr g" and
    keys: "map fst g = first_seen (map book_name rs)" and
    vals: "\<And>k. map_of g k =
              (if k \<in> book_name ` set rs
               then Some (map row_of (filter (\<lambda>r. book_name r = k) rs)) else None)"
    by auto
  have "distinct (map fst g)"
    unfolding keys by (rule first_seen_distinct)
  then have "g = map (\<lambda>k. (k, the (map_of g k))) (map fst g)"
    by (simp only: alist_of_keys)
  also have "\<dots> = grouped rs"
    unfolding keys grouped_def
    by (rule map_cong) (simp_all add: vals first_seen_set)
  finally show ?thesis using run by simp
qed

text \<open>
  C5: grouping a sequence of records, whose book names are strings, gives the map whose
  keys are the book names in first-seen order, each once, and whose value for a book is
  the subsequence of the records of that book, in their order (each without its book name,
  which is the key).
\<close>

theorem grouping_first_seen_order:
  assumes "list_all (\<lambda>r. is_str (book_name r)) rs"
  shows "group_loop rs [] = Inr (grouped rs) \<and>
         map fst (grouped rs) = first_seen (map book_name rs) \<and>
         distinct (map fst (grouped rs)) \<and>
         set (map fst (grouped rs)) = book_name ` set rs \<and>
         (\<forall>k. k \<in> book_name ` set rs \<longrightarrow>
            map_of (grouped rs) k = Some (map row_of (filter (\<lambda>r. book_name r = k) rs)))"
proof -
  have keys: "map fst (grouped rs) = first_seen (map book_name rs)"
    by (simp add: grouped_def comp_def)
  have dist: "distinct (map fst (grouped rs))"
    unfolding keys by (rule first_seen_distinct)
  have dom: "set (map fst (grouped rs)) = book_name ` set rs"
    unfolding keys by (simp add: first_seen_set)
  have "map_of (grouped rs) k = Some (map row_of (filter (\<lambda>r. book_name r = k) rs))"
    if "k \<in> book_name ` set rs" for k
  proof -
    from that have "k \<in> set (first_seen (map book_name rs))"
      by (simp add: first_seen_set)
    then have "(k, map row_of (filter (\<lambda>r. book_name r = k) rs)) \<in> set (grouped rs)"
      unfolding grouped_def by (simp add: image_iff)
    with dist show ?thesis by (rule map_of_is_SomeI)
  qed
  with group_loop_grouped [OF assms] keys dist dom show ?thesis by blast
qed

theorem grouping_first_seen_witness:
  "group_loop
     [\<lparr>book_name = JStr ''B'', page_number = JInt 1, quote = JStr ''q1'', annotation = JStr ''a1''\<rparr>,
      \<lparr>book_name = JStr ''A'', page_number = JInt 2, quote = JStr ''q2'', annotation = JStr ''a2''\<rparr>,
      \<lparr>book_name = JStr ''B'', page_number = JInt 3, quote = JStr ''q3'', annotation = JStr ''a3''\<rparr>]
     [] =
   Inr [(JStr ''B'',
         [JObj [(''page_number'', JInt 1), (''quote'', JStr ''q1''), (''annotation'', JStr ''a1'')],
          JObj [(''page_number'', JInt 3), (''quote'', JStr ''q3''), (''annotation'', JStr ''a3'')]]),
        (JStr ''A'',
         [JObj [(''page_number'', JInt 2), (''quote'', JStr ''q2''), (''annotation'', JStr ''a2'')]])]"
proof -
  let ?rs = "[\<lparr>book_name = JStr ''B'', page_number = JInt 1, quote = JStr ''q1'', annotation = JStr ''a1''\<rparr>,
      \<lparr>book_name = JStr ''A'', page_number = JInt 2, quote = JStr ''q2'', annotation = JStr ''a2''\<rparr>,
      \<lparr>book_name = JStr ''B'', page_number = JInt 3, quote = JStr ''q3'', annotation = JStr ''a3''\<rparr>]"
  have 1: "list_all (\<lambda>r. is_str (book_name r)) ?rs" by simp
  have 2: "grouped ?rs =
    [(JStr ''B'',
         [JObj [(''page_number'', JInt 1), (''quote'', JStr ''q1''), (''annotation'', JStr ''a1'')],
          JObj [(''page_number'', JInt 3), (''quote'', JStr ''q3''), (''annotation'', JStr ''a3'')]]),
        (JStr ''A'',
         [JObj [(''page_number'', JInt 2), (''quote'', JStr ''q2''), (''annotation'', JStr ''a2'')]])]"
    by (simp add: grouped_def row_of_def)
  from grouping_first_seen_order [OF 1] show ?thesis
    unfolding 2 by blast
qed

section \<open>Properties of the reporter\<close>

lemma rows_loop_objects:
  assumes "list_all is_object anns"
    and "list_all (\<lambda>ann. list_all markup_ok (cell_texts repr ann)) anns"
  shows "rows_loop repr markup_ok anns data = Inr (data @ map (cells_of repr) anns)"
  using assms
proof (induction anns arbitrary: data)
  case Nil
  then show ?case by simp
next
  case (Cons a anns)
  then obtain kv where a: "a = JObj kv" by (cases a) simp_all
  from Cons.prems have rest: "list_all is_object anns"
    "list_all (\<lambda>ann. list_all markup_ok (cell_texts repr ann)) anns"
    by simp_all
  from Cons.prems(2) have ok: "list_all markup_ok (cell_texts repr (JObj kv))"
    by (simp add: a)
  show ?case
    using ok by (simp add: a Cons.IH [OF rest] cells_of_def cell_texts_def new_paragraph_def)
qed

text \<open>
  A book with at least one row, in plain text: the table has more rows than the header, so
  the story is the title, the spacer and the table, and the outcome of \<^verbatim>\<open>doc.build\<close>
  decides between the two messages.
\<close>

lemma save_book_proper:
  assumes "anns \<noteq> []" and "list_all is_object anns"
    and "plain_text_group repr markup_ok (JStr t, anns)"
  shows "save_book_to_pdf repr markup_ok build (JStr t) anns ''.'' out =
         Inr (print (book_report repr build (JStr t, anns))
               (if book_written repr build (JStr t, anns)
                then out\<lparr>pdfs := pdfs out @ [book_file repr (JStr t, anns)]\<rparr> else out))"
proof -
  from assms(3) have t: "markup_ok t"
    and cells: "list_all (\<lambda>ann. list_all markup_ok (cell_texts repr ann)) anns"
    by (simp_all add: plain_text_group_def)
  have rows: "rows_loop repr markup_ok anns
                [[Plain ''Page No.'', Plain ''Quote'', Plain ''Annotation'']] =
              Inr ([[Plain ''Page No.'', Plain ''Quote'', Plain ''Annotation'']] @
                   map (cells_of repr) anns)"
    using assms(2) cells by (rule rows_loop_objects)
  have len: "length ([[Plain ''Page No.'', Plain ''Quote'', Plain ''Annotation'']] @
                     map (cells_of repr) anns) \<noteq> 1"
    using assms(1) by simp
  show ?thesis
    using assms(1) len t
    by (simp add: save_book_to_pdf_def rows new_paragraph_def book_report_def
        book_written_def book_file_def book_story_def Let_def split: option.splits)
qed

lemma books_loop_proper:
  assumes "list_all proper_group groups"
    and "list_all (plain_text_group repr markup_ok) groups"
  shows "books_loop repr markup_ok build groups out =
     (out\<lparr>stdout := stdout out @ map (book_report repr build) groups,
          pdfs := pdfs out @ map (book_file repr) (filter (book_written repr build) groups)\<rparr>,
      None)"
  using assms
proof (induction groups arbitrary: out)
  case Nil
  then show ?case by simp
next
  case (Cons g groups)
  obtain title anns where g: "g = (title, anns)" by (cases g)
  from Cons.prems(1) g obtain t where t: "title = JStr t"
    and anns: "anns \<noteq> []" "list_all is_object anns"
    by (cases title) (simp_all add: proper_group_def)
  from Cons.prems(2) have plain: "plain_text_group repr markup_ok (JStr t, anns)"
    by (simp add: g t)
  from Cons.prems have rest: "list_all proper_group groups"
    "list_all (plain_text_group repr markup_ok) groups"
    by simp_all
  show ?case
    by (simp add: g t save_book_proper [OF anns plain] Cons.IH [OF rest] print_def)
qed

text \<open>The groups that the grouping makes are proper: no group is empty.\<close>

lemma grouped_proper:
  assumes "list_all (\<lambda>r. is_str (book_name r)) rs"
  shows "list_all proper_group (grouped rs)"
proof -
  have "proper_group (k, map row_of (filter (\<lambda>r. book_name r = k) rs))"
    if "k \<in> set (first_seen (map book_name rs))" for k
  proof -
    from that obtain r where r: "r \<in> set rs" "book_name r = k"
      by (auto simp: first_seen_set)
    with assms have "is_str k" by (auto simp: list_all_iff)
    moreover from r have "filter (\<lambda>r. book_name r = k) rs \<noteq> []"
      by (auto simp: filter_empty_conv)
    moreover have "list_all is_object (map row_of (filter (\<lambda>r. book_name r = k) rs))"
      by (simp add: list_all_iff row_of_def)
    ultimately show ?thesis by (simp add: proper_group_def)
  qed
  then show ?thesis
    by (simp add: grouped_def list_all_iff)
qed

lemma grouped_not_empty: "rs \<noteq> [] \<Longrightarrow> grouped rs \<noteq> []"
  by (cases rs) (simp_all add: grouped_def)

text \<open>
  What the \<^verbatim>\<open>try\<close> block of lines 144 to 148 does achieve.  When the markup parser accepts
  every title and every text of the rows, each book of the grouped map gets its call, in
  the grouped order; a call whose \<^verbatim>\<open>doc.build\<close> raises prints the line with the book title
  and the cause and writes no file, the books after it are rendered all the same, and the
  process ends with status 0.
\<close>

lemma build_failure_is_reported:
  assumes "extract_annotations_from_json path loaded = (printed, Inr rs)"
    and "rs \<noteq> []" and "list_all (\<lambda>r. is_str (book_name r)) rs"
    and "list_all (plain_text_group repr markup_ok) (grouped rs)"
  shows "main repr markup_ok build path loaded True =
           (\<lparr>stdout = printed @ map (book_report repr build) (grouped rs),
             pdfs = map (book_file repr) (filter (book_written repr build) (grouped rs))\<rparr>,
            Exit 0)"
proof -
  have "books_loop repr markup_ok build (grouped rs) \<lparr>stdout = printed, pdfs = []\<rparr> =
           (\<lparr>stdout = printed @ map (book_report repr build) (grouped rs),
             pdfs = map (book_file repr) (filter (book_written repr build) (grouped rs))\<rparr>,
            None)"
    using books_loop_proper [OF grouped_proper [OF assms(3)] assms(4), of build
        "\<lparr>stdout = printed, pdfs = []\<rparr>"]
    by simp
  then show ?thesis
    using assms(1,2) group_loop_grouped [OF assms(3)] grouped_not_empty [OF assms(2)]
    by (simp add: main_def)
qed

lemma extract_export_markup_title:
  "extract_annotations_from_json path (Loaded export_markup_title) =
     ([], Inr [\<lparr>book_name = JStr ''<b>x'', page_number = JInt 1, quote = JStr ''q1'',
                 annotation = JStr ''a1''\<rparr>,
               \<lparr>book_name = JStr ''B'', page_number = JInt 2, quote = JStr ''q2'',
                 annotation = JStr ''a2''\<rparr>])"
  by (simp add: extract_annotations_from_json_def export_markup_title_def
      resolve_book_name_def)

lemma group_export_markup_title:
  "group_loop
     [\<lparr>book_name = JStr ''<b>x'', page_number = JInt 1, quote = JStr ''q1'',
        annotation = JStr ''a1''\<rparr>,
      \<lparr>book_name = JStr ''B'', page_number = JInt 2, quote = JStr ''q2'',
        annotation = JStr ''a2''\<rparr>] [] =
   Inr [(JStr ''<b>x'', [JObj [(''page_number'', JInt 1), (''quote'', JStr ''q1''),
                               (''annotation'', JStr ''a1'')]]),
        (JStr ''B'', [JObj [(''page_number'', JInt 2), (''quote'', JStr ''q2''),
                            (''annotation'', JStr ''a2'')]])]"
  by (simp add: has_key_def key_eq_def)

text \<open>
  C9 at an input where it fails: two books in PDF mode, the first with the title
  \<^verbatim>\<open><b>x\<close>, which the markup parser of the PDF library does not accept.  The paragraph of
  the title is constructed on line 102, outside the \<^verbatim>\<open>try\<close> block: its \<^verbatim>\<open>ValueError\<close> is
  not caught, nothing is reported, the process ends with the exception, and the second book
  is never rendered.
\<close>

theorem markup_title_stops_the_run:
  assumes "\<not> markup_ok ''<b>x''"
  shows "main repr markup_ok build path (Loaded export_markup_title) True =
           (\<lparr>stdout = [], pdfs = []\<rparr>, Uncaught ValueError)"
proof -
  have "save_book_to_pdf repr markup_ok build (JStr ''<b>x'')
          [JObj [(''page_number'', JInt 1), (''quote'', JStr ''q1''),
                 (''annotation'', JStr ''a1'')]] ''.'' \<lparr>stdout = [], pdfs = []\<rparr> =
        Inl ValueError"
    using assms by (simp add: save_book_to_pdf_def new_paragraph_def)
  then show ?thesis
    by (simp add: main_def extract_export_markup_title group_export_markup_title
        del: group_loop.simps)
qed

theorem markup_title_witness:
  "main (\<lambda>v. []) (\<lambda>text. CHR ''<'' \<notin> set text) (\<lambda>file story. None) ''in.json''
     (Loaded export_markup_title) True =
   (\<lparr>stdout = [], pdfs = []\<rparr>, Uncaught ValueError)"
proof -
  from markup_title_stops_the_run [of "\<lambda>text. CHR ''<'' \<notin> set text" "\<lambda>v. []"
      "\<lambda>file story. None" "''in.json''"]
  show ?thesis by simp
qed

lemma str_int_5: "str_int 5 = ''5''"
  by code_simp

lemma pdf_filename_T: "pdf_filename ''.'' ''T'' = ''./T_Annotations.pdf''"
  by (simp add: pdf_filename_dot sanitize_filename_def re_sub_removed_def
      replace_spaces_def removed_chars_def)

lemma extract_export_pages:
  "extract_annotations_from_json path (Loaded export_pages) =
     ([], Inr [\<lparr>book_name = JStr ''T'', page_number = JNull, quote = JStr ''Q'',
                 annotation = JStr ''A''\<rparr>,
               \<lparr>book_name = JStr ''T'', page_number = JStr ''xii'', quote = JStr ''Q'',
                 annotation = JStr ''A''\<rparr>,
               \<lparr>book_name = JStr ''T'', page_number = JInt 5, quote = JStr ''Q'',
                 annotation = JStr ''A''\<rparr>])"
  by (simp add: extract_annotations_from_json_def export_pages_def resolve_book_name_def)

lemma group_export_pages:
  "group_loop
     [\<lparr>book_name = JStr ''T'', page_number = JNull, quote = JStr ''Q'',
        annotation = JStr ''A''\<rparr>,
      \<lparr>book_name = JStr ''T'', page_number = JStr ''xii'', quote = JStr ''Q'',
        annotation = JStr ''A''\<rparr>,
      \<lparr>book_name = JStr ''T'', page_number = JInt 5, quote = JStr ''Q'',
        annotation = JStr ''A''\<rparr>] [] =
   Inr [(JStr ''T'',
         [JObj [(''page_number'', JNull), (''quote'', JStr ''Q''), (''annotation'', JStr ''A'')],
          JObj [(''page_number'', JStr ''xii''), (''quote'', JStr ''Q''),
                (''annotation'', JStr ''A'')],
          JObj [(''page_number'', JInt 5), (''quote'', JStr ''Q''),
                (''annotation'', JStr ''A'')]])]"
  by (simp add: has_key_def key_eq_def)

text \<open>
  C7 at an input where it fails: one book with three citations, the first without
  \<^verbatim>\<open>note_page\<close>.  The row that the script builds for it on lines 172 to 176 has the key
  \<^verbatim>\<open>page_number\<close> with the value \<^verbatim>\<open>None\<close>, so \<^verbatim>\<open>ann.get('page_number', 'N/A')\<close> on line 113
  returns \<^verbatim>\<open>None\<close> and not the placeholder: the page cell of the PDF reads \<^verbatim>\<open>None\<close>.  The
  console, which has no placeholder, prints \<^verbatim>\<open>Page: None\<close>.  The pages that are present,
  the string \<^verbatim>\<open>xii\<close> and the integer 5, are put as they are.
\<close>

theorem absent_page_is_rendered_as_None:
  assumes "list_all markup_ok [''T'', ''None'', ''xii'', ''5'', ''Q'', ''A'']"
  shows "main repr markup_ok (\<lambda>file story. None) path (Loaded export_pages) True =
           (\<lparr>stdout = [''Successfully generated PDF: ./T_Annotations.pdf''],
             pdfs = [(''./T_Annotations.pdf'',
               [InStory (Paragraph ''T'' H1_centred), Spacer,
                Table [[Plain ''Page No.'', Plain ''Quote'', Plain ''Annotation''],
                       [InCell (Paragraph ''None'' Normal), InCell (Paragraph ''Q'' Normal),
                        InCell (Paragraph ''A'' Normal)],
                       [InCell (Paragraph ''xii'' Normal), InCell (Paragraph ''Q'' Normal),
                        InCell (Paragraph ''A'' Normal)],
                       [InCell (Paragraph ''5'' Normal), InCell (Paragraph ''Q'' Normal),
                        InCell (Paragraph ''A'' Normal)]]])]\<rparr>,
            Exit 0) \<and>
         stdout (fst (main repr markup_ok build path (Loaded export_pages) False)) =
           [CHR 0x0A # ''Extracted Annotations (Console Output):''] @
           [''  Book: T'', ''  Page: None'', ''  Quote: '' @ [CHR 0x22] @ ''Q'' @ [CHR 0x22],
            ''  Annotation: '' @ [CHR 0x22] @ ''A'' @ [CHR 0x22], replicate 20 CHR ''-''] @
           [''  Book: T'', ''  Page: xii'', ''  Quote: '' @ [CHR 0x22] @ ''Q'' @ [CHR 0x22],
            ''  Annotation: '' @ [CHR 0x22] @ ''A'' @ [CHR 0x22], replicate 20 CHR ''-''] @
           [''  Book: T'', ''  Page: 5'', ''  Quote: '' @ [CHR 0x22] @ ''Q'' @ [CHR 0x22],
            ''  Annotation: '' @ [CHR 0x22] @ ''A'' @ [CHR 0x22], replicate 20 CHR ''-'']"
proof -
  let ?rows = "[JObj [(''page_number'', JNull), (''quote'', JStr ''Q''),
                      (''annotation'', JStr ''A'')],
                JObj [(''page_number'', JStr ''xii''), (''quote'', JStr ''Q''),
                      (''annotation'', JStr ''A'')],
                JObj [(''page_number'', JInt 5), (''quote'', JStr ''Q''),
                      (''annotation'', JStr ''A'')]]"
  from assms have ok: "markup_ok ''T''" "markup_ok ''None''" "markup_ok ''xii''"
    "markup_ok ''5''" "markup_ok ''Q''" "markup_ok ''A''"
    by simp_all
  have rows: "rows_loop repr markup_ok ?rows
                [[Plain ''Page No.'', Plain ''Quote'', Plain ''Annotation'']] =
     Inr [[Plain ''Page No.'', Plain ''Quote'', Plain ''Annotation''],
          [InCell (Paragraph ''None'' Normal), InCell (Paragraph ''Q'' Normal),
           InCell (Paragraph ''A'' Normal)],
          [InCell (Paragraph ''xii'' Normal), InCell (Paragraph ''Q'' Normal),
           InCell (Paragraph ''A'' Normal)],
          [InCell (Paragraph ''5'' Normal), InCell (Paragraph ''Q'' Normal),
           InCell (Paragraph ''A'' Normal)]]"
    using ok by (simp add: new_paragraph_def str_int_5)
  have save: "save_book_to_pdf repr markup_ok (\<lambda>file story. None) (JStr ''T'') ?rows ''.''
                \<lparr>stdout = [], pdfs = []\<rparr> =
     Inr \<lparr>stdout = [''Successfully generated PDF: ./T_Annotations.pdf''],
          pdfs = [(''./T_Annotations.pdf'',
               [InStory (Paragraph ''T'' H1_centred), Spacer,
                Table [[Plain ''Page No.'', Plain ''Quote'', Plain ''Annotation''],
                       [InCell (Paragraph ''None'' Normal), InCell (Paragraph ''Q'' Normal),
                        InCell (Paragraph ''A'' Normal)],
                       [InCell (Paragraph ''xii'' Normal), InCell (Paragraph ''Q'' Normal),
                        InCell (Paragraph ''A'' Normal)],
                       [InCell (Paragraph ''5'' Normal), InCell (Paragraph ''Q'' Normal),
                        InCell (Paragraph ''A'' Normal)]]])]\<rparr>"
    using ok(1)
    by (simp add: save_book_to_pdf_def rows new_paragraph_def pdf_filename_T print_def
        Let_def del: rows_loop.simps)
  have pdf: "main repr markup_ok (\<lambda>file story. None) path (Loaded export_pages) True =
           (\<lparr>stdout = [''Successfully generated PDF: ./T_Annotations.pdf''],
             pdfs = [(''./T_Annotations.pdf'',
               [InStory (Paragraph ''T'' H1_centred), Spacer,
                Table [[Plain ''Page No.'', Plain ''Quote'', Plain ''Annotation''],
                       [InCell (Paragraph ''None'' Normal), InCell (Paragraph ''Q'' Normal),
                        InCell (Paragraph ''A'' Normal)],
                       [InCell (Paragraph ''xii'' Normal), InCell (Paragraph ''Q'' Normal),
                        InCell (Paragraph ''A'' Normal)],
                       [InCell (Paragraph ''5'' Normal), InCell (Paragraph ''Q'' Normal),
                        InCell (Paragraph ''A'' Normal)]]])]\<rparr>,
            Exit 0)"
    by (simp add: main_def extract_export_pages group_export_pages save
        del: group_loop.simps)
  have console: "stdout (fst (main repr markup_ok build path (Loaded export_pages) False)) =
           [CHR 0x0A # ''Extracted Annotations (Console Output):''] @
           [''  Book: T'', ''  Page: None'', ''  Quote: '' @ [CHR 0x22] @ ''Q'' @ [CHR 0x22],
            ''  Annotation: '' @ [CHR 0x22] @ ''A'' @ [CHR 0x22], replicate 20 CHR ''-''] @
           [''  Book: T'', ''  Page: xii'', ''  Quote: '' @ [CHR 0x22] @ ''Q'' @ [CHR 0x22],
            ''  Annotation: '' @ [CHR 0x22] @ ''A'' @ [CHR 0x22], replicate 20 CHR ''-''] @
           [''  Book: T'', ''  Page: 5'', ''  Quote: '' @ [CHR 0x22] @ ''Q'' @ [CHR 0x22],
            ''  Annotation: '' @ [CHR 0x22] @ ''A'' @ [CHR 0x22], replicate 20 CHR ''-'']"
    by (simp add: main_def extract_export_pages console_block_def str_int_5)
  from pdf console show ?thesis by (rule conjI)
qed

theorem absent_page_witness:
  "pdfs (fst (main (\<lambda>v. []) (\<lambda>text. CHR ''<'' \<notin> set text) (\<lambda>file story. None) ''in.json''
                (Loaded export_pages) True)) =
     [(''./T_Annotations.pdf'',
       [InStory (Paragraph ''T'' H1_centred), Spacer,
        Table [[Plain ''Page No.'', Plain ''Quote'', Plain ''Annotation''],
               [InCell (Paragraph ''None'' Normal), InCell (Paragraph ''Q'' Normal),
                InCell (Paragraph ''A'' Normal)],
               [InCell (Paragraph ''xii'' Normal), InCell (Paragraph ''Q'' Normal),
                InCell (Paragraph ''A'' Normal)],
               [InCell (Paragraph ''5'' Normal), InCell (Paragraph ''Q'' Normal),
                InCell (Paragraph ''A'' Normal)]]])]"
proof -
  have "list_all (\<lambda>text. CHR ''<'' \<notin> set text) [''T'', ''None'', ''xii'', ''5'', ''Q'', ''A'']"
    by simp
  from absent_page_is_rendered_as_None [of "\<lambda>text. CHR ''<'' \<notin> set text" "\<lambda>v. []"
      "''in.json''" "\<lambda>file story. None", OF this]
  show ?thesis by simp
qed

text \<open>
  C2, as stated, fails: with an empty list \<^verbatim>\<open>save_book_to_pdf\<close> prints one line and
  returns; no document is built, although the library would have accepted every text and
  written the file.
\<close>

theorem empty_list_emits_no_document:
  "save_book_to_pdf (\<lambda>v. []) (\<lambda>text. True) (\<lambda>file story. None) (JStr ''T'') [] ''.''
     \<lparr>stdout = [], pdfs = []\<rparr> =
   Inr \<lparr>stdout = [''No annotations to save for T.''], pdfs = []\<rparr>"
  by (simp add: save_book_to_pdf_def print_def)

text \<open>
  C2, amended: with an empty list \<^verbatim>\<open>save_book_to_pdf\<close> prints
  \<^verbatim>\<open>No annotations to save for <title>.\<close> and returns: no document is emitted, with or
  without a notice, and no exception is raised.
\<close>

theorem empty_list_prints_and_returns:
  "save_book_to_pdf repr markup_ok build book_title [] base_path out =
     Inr (out\<lparr>stdout := stdout out @
            [''No annotations to save for '' @ py_str repr book_title @ ''.'']\<rparr>) \<and>
   pdfs (out\<lparr>stdout := stdout out @
            [''No annotations to save for '' @ py_str repr book_title @ ''.'']\<rparr>) = pdfs out"
  by (simp add: save_book_to_pdf_def print_def)

text \<open>
  The end-to-end example of the specification: one document \<^verbatim>\<open>T\<close> with one citation on
  page 5, printed on the console.
\<close>

lemma end_to_end_console:
  "main repr markup_ok build path
     (Loaded (JObj [(''docs'',
        JArr [JObj [(''data'', JObj [(''doc_title'', JStr ''T'')]),
                    (''citations'', JArr [JObj [(''note_page'', JInt 5),
                       (''note_body'', JStr ''Q''), (''note_extra'', JStr ''A'')]])]])]))
     False =
   (\<lparr>stdout = [CHR 0x0A # ''Extracted Annotations (Console Output):'',
                ''  Book: T'', ''  Page: 5'',
                ''  Quote: '' @ [CHR 0x22] @ ''Q'' @ [CHR 0x22],
                ''  Annotation: '' @ [CHR 0x22] @ ''A'' @ [CHR 0x22],
                ''--------------------''],
     pdfs = []\<rparr>, Exit 0)"
proof -
  have dashes: "replicate 20 CHR ''-'' = ''--------------------''" by code_simp
  show ?thesis
    by (simp add: main_def extract_annotations_from_json_def resolve_book_name_def
        console_block_def str_int_5 dashes)
qed

text \<open>
  Any other exception of \<^verbatim>\<open>open\<close> or \<^verbatim>\<open>json.load\<close> leaves the function and the process.
\<close>

lemma other_load_error_is_uncaught:
  "main repr markup_ok build path (LoadRaises e) pdf =
     (\<lparr>stdout = [], pdfs = []\<rparr>, Uncaught e)"
  by (simp add: main_def extract_annotations_from_json_def)

end
